theory Spec2Isabelle
  imports Complex_Main
begin

section \<open>Data of the client (types/index.ts)\<close>

text \<open>
  Strings are lists of characters. A \<open>Date\<close> is the number of milliseconds it holds,
  as \<open>Date.now()\<close> returns it. Optional properties are options.
  The property \<open>source\<close> is not declared by the interface \<open>Message\<close>; the streaming
  hook writes it in \<open>onStreamUpdate\<close>, so the record has a field for it.
\<close>

datatype MessageType = User | Assistant

record Message =
  msg_id :: string
  msg_type :: MessageType
  msg_content :: string
  msg_timestamp :: nat
  msg_sources :: "string list option"
  msg_isLoading :: "bool option"
  msg_error :: "string option"
  msg_source :: "string list option"

text \<open>
  The interface \<open>QuestionResponse\<close>, the view the compiled client has of the successful
  response of the endpoint \<open>/ask\<close>. The three numeric fields are declared \<open>number\<close>:
  any finite number a JSON text can hold, so a real.
\<close>

record QuestionResponse =
  question :: string
  answer :: string
  sources :: "string list"
  relevant_chunks_found :: real
  context_chunks_used :: real
  timestamp :: string
  response_time_ms :: real

section \<open>JavaScript string operations used by the client\<close>

text \<open>Decimal digits of a number, as a template literal prints it.\<close>

fun show_nat :: "nat \<Rightarrow> string" where
  "show_nat n =
     (if n < 10 then [''0123456789'' ! n]
      else show_nat (n div 10) @ [''0123456789'' ! (n mod 10)])"

text \<open>\<open>a || b\<close> on a string that may be missing: the empty string is falsy too.\<close>

fun or_else :: "string option \<Rightarrow> string \<Rightarrow> string" where
  "or_else None d = d"
| "or_else (Some s) d = (if s = [] then d else s)"

text \<open>
  The white space \<open>String.prototype.trim\<close> removes, among the characters below 256:
  tab, line feed, vertical tab, form feed, carriage return, space, no-break space.
\<close>

definition isWhitespace :: "char \<Rightarrow> bool" where
  "isWhitespace c =
     (c = CHR 0x09 \<or> c = CHR 0x0A \<or> c = CHR 0x0B \<or> c = CHR 0x0C \<or> c = CHR 0x0D
      \<or> c = CHR 0x20 \<or> c = CHR 0xA0)"

definition trim :: "string \<Rightarrow> string" where
  "trim s = rev (dropWhile isWhitespace (rev (dropWhile isWhitespace s)))"

text \<open>\<open>s.split('\n')\<close>: the pieces between line feeds; the empty string gives one empty piece.\<close>

fun split_newline :: "string \<Rightarrow> string list" where
  "split_newline [] = [[]]"
| "split_newline (c # cs) =
     (if c = CHR 0x0A then [] # split_newline cs
      else (case split_newline cs of
              [] \<Rightarrow> [[c]]
            | l # ls \<Rightarrow> (c # l) # ls))"

section \<open>The axios client and askQuestion (lib/api.ts, first version)\<close>

text \<open>
  The error axios hands to the response interceptor: with a response (its status and
  \<open>data?.detail\<close>), with a request and no response, or with neither (its message).
  The instance is created with \<open>timeout: 345000\<close>.
\<close>

datatype AxiosError =
    WithResponse nat "string option"
  | NoResponse
  | SetupError string

definition response_error_message :: "AxiosError \<Rightarrow> string" where
  "response_error_message error =
     (case error of
        WithResponse status detail \<Rightarrow>
          (if status = 503 then
             ''The AI service is currently unavailable. Please wait a moment and try again.''
           else if status = 400 then
             or_else detail ''Bad request. Please check your input.''
           else or_else detail (''Server error: '' @ show_nat status))
      | NoResponse \<Rightarrow>
          ''No response from server. Please check your internet connection or if the API is running.''
      | SetupError m \<Rightarrow> ''Request setup error: '' @ m)"

text \<open>
  What a request settles with. The type argument of \<open>apiClient.post<QuestionResponse>\<close>
  is an annotation for the compiler: nothing checks \<open>response.data\<close> against it, so the
  data is of any type \<open>'a\<close>.
\<close>

datatype 'a post_result = PostResolves 'a | PostRejects AxiosError

text \<open>
  \<open>askQuestion(question, maxSources = 5)\<close>. The first argument stands for
  \<open>apiClient.post('/ask', {question, max_sources})\<close>: what the request settles with.
  The result is the response's data, or the \<open>Error\<close> the interceptor rejects with
  (its message), which \<open>askQuestion\<close> throws again.
\<close>

definition askQuestion ::
  "(string \<Rightarrow> nat \<Rightarrow> 'a post_result) \<Rightarrow> string \<Rightarrow> nat \<Rightarrow> string + 'a" where
  "askQuestion post q maxSources =
     (case post q maxSources of
        PostResolves data \<Rightarrow> Inr data
      | PostRejects error \<Rightarrow> Inl (response_error_message error))"

subsection \<open>The response data at run time\<close>

text \<open>
  At run time \<open>response.data\<close> is the value axios parsed from the JSON body: any JSON
  value. An object is its list of properties, in the order of the text.
\<close>

datatype json =
    JNull
  | JBoolean bool
  | JNumber real
  | JString string
  | JArray "json list"
  | JObject "(string \<times> json) list"

text \<open>\<open>Object.keys(v)\<close> of an object, and the property read \<open>v[k]\<close> (\<open>None\<close> is undefined).\<close>

fun keys_of :: "json \<Rightarrow> string list" where
  "keys_of (JObject props) = map fst props"
| "keys_of v = []"

fun property :: "json \<Rightarrow> string \<Rightarrow> json option" where
  "property (JObject props) k = map_of props k"
| "property v k = None"

text \<open>
  The types of the interface, read on a property: \<open>string\<close>, \<open>number\<close>, \<open>string[]\<close>;
  and a number that is an integer (\<open>Number.isInteger\<close>).
\<close>

fun is_string :: "json option \<Rightarrow> bool" where
  "is_string (Some (JString s)) = True"
| "is_string v = False"

fun is_number :: "json option \<Rightarrow> bool" where
  "is_number (Some (JNumber x)) = True"
| "is_number v = False"

fun is_integer :: "json option \<Rightarrow> bool" where
  "is_integer (Some (JNumber x)) = (real_of_int \<lfloor>x\<rfloor> = x)"
| "is_integer v = False"

fun is_string_array :: "json option \<Rightarrow> bool" where
  "is_string_array (Some (JArray vs)) = list_all (\<lambda>v. is_string (Some v)) vs"
| "is_string_array v = False"

text \<open>A value has the shape the interface \<open>QuestionResponse\<close> declares.\<close>

definition conforms_QuestionResponse :: "json \<Rightarrow> bool" where
  "conforms_QuestionResponse v =
     (is_string (property v ''question'') \<and>
      is_string (property v ''answer'') \<and>
      is_string_array (property v ''sources'') \<and>
      is_number (property v ''relevant_chunks_found'') \<and>
      is_number (property v ''context_chunks_used'') \<and>
      is_string (property v ''timestamp'') \<and>
      is_number (property v ''response_time_ms''))"

text \<open>Modelled from the spec: the non-streaming response of the backend, whose code is not
  among the sources. It is a single object
  \<open>{question, answer, sources: [string], relevant_chunks_found: int,
  context_chunks_used: int, timestamp, response_time_ms}\<close>; the timestamp is a string and
  the response time a number, as the client declares them.
\<close>

definition ask_response ::
  "string \<Rightarrow> string \<Rightarrow> string list \<Rightarrow> int \<Rightarrow> int \<Rightarrow> string \<Rightarrow> real \<Rightarrow> json" where
  "ask_response q a srcs found used stamp ms =
     JObject [(''question'', JString q), (''answer'', JString a),
       (''sources'', JArray (map JString srcs)),
       (''relevant_chunks_found'', JNumber (real_of_int found)),
       (''context_chunks_used'', JNumber (real_of_int used)),
       (''timestamp'', JString stamp), (''response_time_ms'', JNumber ms)]"

section \<open>askQuestionStream (lib/api.ts, second version)\<close>

datatype StreamResponsePart =
    is_StreamMetadata: StreamMetadata (meta_sources: "string list")
      (meta_relevant_chunks_found: real) (meta_context_chunks_used: real)
  | is_StreamChunk: StreamChunk (chunk_content: string)
  | is_StreamEnd: StreamEnd (full_answer: string) (end_timestamp: string)
      (generation_time: string)

text \<open>
  What \<open>JSON.parse\<close> returns, as far as the loop tells values apart: an object whose
  \<open>type\<close> compares equal to one of the three tags (with the properties the interfaces
  declare), the value \<open>null\<close> (reading \<open>parsed.type\<close> throws a TypeError), or any other
  value (no branch is taken). \<open>JSON.parse\<close> itself is a parameter of the model:
  \<open>None\<close> is the SyntaxError it throws.
\<close>

datatype json_value = Part StreamResponsePart | JsonNull | JsonOther

type_synonym json_parse = "string \<Rightarrow> json_value option"

text \<open>
  The network. A promise settles with a value, rejects with an error (its message), or
  never settles. A reader is seen through the results its successive \<open>read()\<close> calls
  settle with (the decoded text of a value); a call past the end of that list never settles.
\<close>

datatype read_result = ReadValue string | ReadDone | ReadThrows string

datatype json_result = JsonData "string option" | JsonThrows string | JsonPending

record Response =
  ok :: bool
  status :: nat
  json :: json_result
  body :: "read_result list option"

datatype fetch_result = FetchResolves Response | FetchRejects string | FetchPending

text \<open>The calls the function makes to its three callbacks, in order.\<close>

datatype callback =
    is_OnStreamUpdate: OnStreamUpdate string "string list"
  | is_OnStreamEnd: OnStreamEnd string
  | is_OnError: OnError string

datatype completion = Returned | Threw string | Pending

text \<open>\<open>chunk.split('\n').filter(line => line.trim() !== '')\<close>\<close>

definition lines_of :: "string \<Rightarrow> string list" where
  "lines_of chunk = filter (\<lambda>line. trim line \<noteq> []) (split_newline chunk)"

text \<open>\<open>line.startsWith('data: ') ? line.substring(6) : line\<close>\<close>

definition jsonLine_of :: "string \<Rightarrow> string" where
  "jsonLine_of line = (if take 6 line = ''data: '' then drop 6 line else line)"

text \<open>The first statements of the loop body, up to \<open>JSON.parse\<close>.\<close>

datatype line_outcome = Blank | SyntaxError | Parsed json_value

definition line_result :: "json_parse \<Rightarrow> string \<Rightarrow> line_outcome" where
  "line_result parse line =
     (let jsonLine = jsonLine_of line in
      if trim jsonLine = [] then Blank
      else (case parse jsonLine of None \<Rightarrow> SyntaxError | Some v \<Rightarrow> Parsed v))"

text \<open>
  The rest of the loop body, on the variables \<open>(accumulatedContent, sources)\<close>: the
  calls made, and the variables to go on with, or \<open>None\<close> after \<open>return\<close>. An error
  thrown inside the inner \<open>try\<close> is logged and the loop goes on.
\<close>

fun on_parsed ::
  "string \<times> string list \<Rightarrow> line_outcome \<Rightarrow> callback list \<times> (string \<times> string list) option" where
  "on_parsed (acc, srcs) Blank = ([], Some (acc, srcs))"
| "on_parsed (acc, srcs) SyntaxError = ([], Some (acc, srcs))"
| "on_parsed (acc, srcs) (Parsed JsonNull) = ([], Some (acc, srcs))"
| "on_parsed (acc, srcs) (Parsed JsonOther) = ([], Some (acc, srcs))"
| "on_parsed (acc, srcs) (Parsed (Part (StreamMetadata s f u))) =
     ([OnStreamUpdate acc s], Some (acc, s))"
| "on_parsed (acc, srcs) (Parsed (Part (StreamChunk c))) =
     ([OnStreamUpdate (acc @ c) srcs], Some (acc @ c, srcs))"
| "on_parsed (acc, srcs) (Parsed (Part (StreamEnd full t g))) = ([OnStreamEnd full], None)"

definition process_line ::
  "json_parse \<Rightarrow> string \<times> string list \<Rightarrow> string \<Rightarrow> callback list \<times> (string \<times> string list) option" where
  "process_line parse vars line = on_parsed vars (line_result parse line)"

text \<open>\<open>for (const line of lines)\<close>\<close>

fun for_lines ::
  "json_parse \<Rightarrow> string \<times> string list \<Rightarrow> string list \<Rightarrow> callback list \<times> (string \<times> string list) option" where
  "for_lines parse vars [] = ([], Some vars)"
| "for_lines parse vars (line # rest) =
     (case process_line parse vars line of
        (calls, None) \<Rightarrow> (calls, None)
      | (calls, Some vars') \<Rightarrow>
          (case for_lines parse vars' rest of (calls', r) \<Rightarrow> (calls @ calls', r)))"

text \<open>\<open>while (true)\<close>, one \<open>reader.read()\<close> each round.\<close>

fun read_loop ::
  "json_parse \<Rightarrow> string \<times> string list \<Rightarrow> read_result list \<Rightarrow> callback list \<times> completion" where
  "read_loop parse vars [] = ([], Pending)"
| "read_loop parse vars (ReadDone # reads) = ([], Returned)"
| "read_loop parse vars (ReadThrows m # reads) = ([], Threw m)"
| "read_loop parse vars (ReadValue chunk # reads) =
     (case for_lines parse vars (lines_of chunk) of
        (calls, None) \<Rightarrow> (calls, Returned)
      | (calls, Some vars') \<Rightarrow>
          (case read_loop parse vars' reads of (calls', c) \<Rightarrow> (calls @ calls', c)))"

text \<open>The body of the outer \<open>try\<close>.\<close>

definition stream_try :: "json_parse \<Rightarrow> fetch_result \<Rightarrow> callback list \<times> completion" where
  "stream_try parse fetched =
     (case fetched of
        FetchPending \<Rightarrow> ([], Pending)
      | FetchRejects m \<Rightarrow> ([], Threw m)
      | FetchResolves response \<Rightarrow>
          (if \<not> ok response then
             (case json response of
                JsonPending \<Rightarrow> ([], Pending)
              | JsonThrows m \<Rightarrow> ([], Threw m)
              | JsonData err \<Rightarrow>
                  ([], Threw (or_else err (''HTTP error! status: '' @ show_nat (status response)))))
           else
             (case body response of
                None \<Rightarrow> ([], Threw ''Failed to get readable stream from response.'')
              | Some reads \<Rightarrow> read_loop parse ([], []) reads)))"

text \<open>
  \<open>askQuestionStream(question, onStreamUpdate, onStreamEnd, onError)\<close>: the calls to the
  callbacks, and whether the promise settles. The second argument stands for
  \<open>fetch(API_BASE_URL + '/ask', ...)\<close> with the question in its body.
\<close>

definition askQuestionStream ::
  "json_parse \<Rightarrow> (string \<Rightarrow> fetch_result) \<Rightarrow> string \<Rightarrow> callback list \<times> completion" where
  "askQuestionStream parse fetch q =
     (case stream_try parse (fetch q) of
        (calls, Threw m) \<Rightarrow>
          (calls @ [OnError (if m = [] then ''Network error during streaming.'' else m)], Returned)
      | (calls, c) \<Rightarrow> (calls, c))"

section \<open>The chat hook (hooks/useChat.ts)\<close>

record chat =
  messages :: "Message list"
  isLoading :: bool
  apiError :: "string option"
  isInitialized :: bool

text \<open>
  The clock readings of one \<open>sendMessage\<close>: the two \<open>Date.now()\<close> of the identifiers,
  the two \<open>new Date()\<close> of the messages, and the \<open>new Date()\<close> taken when the answer or
  the error arrives.
\<close>

record times =
  now_user :: nat
  now_assistant :: nat
  date_user :: nat
  date_loading :: nat
  date_final :: nat

subsection \<open>Streaming version\<close>

text \<open>The callbacks work on the hook's state and the local variable \<open>receivedSources\<close>.\<close>

definition onStreamUpdate ::
  "string \<Rightarrow> string \<Rightarrow> string list \<Rightarrow> chat \<times> string list \<Rightarrow> chat \<times> string list" where
  "onStreamUpdate assistantMessageId newContent newSources =
     (\<lambda>(st, receivedSources).
        (st\<lparr>messages :=
             map (\<lambda>msg. if msg_id msg = assistantMessageId
                         then msg\<lparr>msg_content := newContent, msg_source := Some newSources,
                                  msg_isLoading := Some True\<rparr>
                         else msg) (messages st)\<rparr>,
         newSources))"

definition onStreamEnd ::
  "string \<Rightarrow> nat \<Rightarrow> string \<Rightarrow> chat \<times> string list \<Rightarrow> chat \<times> string list" where
  "onStreamEnd assistantMessageId date fullAnswer =
     (\<lambda>(st, receivedSources).
        (st\<lparr>messages :=
             map (\<lambda>msg. if msg_id msg = assistantMessageId
                         then msg\<lparr>msg_content := fullAnswer, msg_sources := Some receivedSources,
                                  msg_isLoading := Some False, msg_timestamp := date\<rparr>
                         else msg) (messages st),
            isLoading := False\<rparr>,
         receivedSources))"

definition onError ::
  "string \<Rightarrow> nat \<Rightarrow> string \<Rightarrow> chat \<times> string list \<Rightarrow> chat \<times> string list" where
  "onError assistantMessageId date errorMsg =
     (\<lambda>(st, receivedSources).
        (st\<lparr>messages :=
             map (\<lambda>msg. if msg_id msg = assistantMessageId
                         then msg\<lparr>msg_content :=
                                    ''Sorry, I encountered an error during streaming. Please try again.'',
                                  msg_isLoading := Some False, msg_error := Some errorMsg,
                                  msg_timestamp := date\<rparr>
                         else msg) (messages st),
            apiError := Some errorMsg,
            isLoading := False\<rparr>,
         receivedSources))"

fun invoke :: "string \<Rightarrow> nat \<Rightarrow> chat \<times> string list \<Rightarrow> callback \<Rightarrow> chat \<times> string list" where
  "invoke aid date s (OnStreamUpdate newContent newSources) =
     onStreamUpdate aid newContent newSources s"
| "invoke aid date s (OnStreamEnd fullAnswer) = onStreamEnd aid date fullAnswer s"
| "invoke aid date s (OnError errorMsg) = onError aid date errorMsg s"

text \<open>
  \<open>sendMessage(question)\<close> of the streaming hook: the state once the calls of
  \<open>askQuestionStream\<close> have been made. The \<open>isLoading\<close> it tests is the one of the
  state: \<open>useCallback\<close> renews the function whenever \<open>isLoading\<close> changes.
  \<open>askQuestionStream\<close> catches what it throws, and the callbacks only set state, so the
  hook's own \<open>catch\<close> is never entered.
\<close>

definition sendMessage ::
  "json_parse \<Rightarrow> (string \<Rightarrow> fetch_result) \<Rightarrow> times \<Rightarrow> chat \<Rightarrow> string \<Rightarrow> chat" where
  "sendMessage parse fetch t st q =
     (if isLoading st then st
      else
        let userMessageId = ''user-'' @ show_nat (now_user t);
            assistantMessageId = ''assistant-'' @ show_nat (now_assistant t);
            userMessage = \<lparr>msg_id = userMessageId, msg_type = User, msg_content = q,
              msg_timestamp = date_user t, msg_sources = None, msg_isLoading = None,
              msg_error = None, msg_source = None\<rparr>;
            loadingMessage = \<lparr>msg_id = assistantMessageId, msg_type = Assistant,
              msg_content = '' Let me think about that...'',
              msg_timestamp = date_loading t, msg_sources = Some [], msg_isLoading = Some True,
              msg_error = None, msg_source = None\<rparr>;
            st1 = st\<lparr>messages := messages st @ [userMessage, loadingMessage],
                     isLoading := True, apiError := None\<rparr>
        in fst (foldl (invoke assistantMessageId (date_final t)) (st1, [])
                  (fst (askQuestionStream parse fetch q))))"

subsection \<open>Non-streaming version\<close>

definition sendMessage_nonstreaming ::
  "(string \<Rightarrow> nat \<Rightarrow> QuestionResponse post_result) \<Rightarrow> times \<Rightarrow> chat \<Rightarrow> string \<Rightarrow> chat" where
  "sendMessage_nonstreaming post t st q =
     (if isLoading st then st
      else
        let userMessageId = ''user-'' @ show_nat (now_user t);
            assistantMessageId = ''assistant-'' @ show_nat (now_assistant t);
            userMessage = \<lparr>msg_id = userMessageId, msg_type = User, msg_content = q,
              msg_timestamp = date_user t, msg_sources = None, msg_isLoading = None,
              msg_error = None, msg_source = None\<rparr>;
            st1 = st\<lparr>messages := messages st @ [userMessage],
                     isLoading := True, apiError := None\<rparr>;
            loadingMessage = \<lparr>msg_id = assistantMessageId, msg_type = Assistant,
              msg_content = ''Let me think about that...'',
              msg_timestamp = date_loading t, msg_sources = None, msg_isLoading = Some True,
              msg_error = None, msg_source = None\<rparr>;
            st2 = st1\<lparr>messages := messages st1 @ [loadingMessage]\<rparr>
        in (case askQuestion post q 5 of
              Inr response \<Rightarrow>
                st2\<lparr>messages :=
                      map (\<lambda>msg. if msg_id msg = assistantMessageId
                                  then msg\<lparr>msg_content := answer response,
                                           msg_sources := Some (sources response),
                                           msg_isLoading := Some False,
                                           msg_timestamp := date_final t\<rparr>
                                  else msg) (messages st2),
                    isLoading := False\<rparr>
            | Inl message \<Rightarrow>
                st2\<lparr>messages :=
                      map (\<lambda>msg. if msg_id msg = assistantMessageId
                                  then msg\<lparr>msg_content :=
                                             ''Sorry, I encountered an error while processing your question. Please try again.'',
                                           msg_isLoading := Some False,
                                           msg_error := Some message,
                                           msg_timestamp := date_final t\<rparr>
                                  else msg) (messages st2),
                    apiError := Some message,
                    isLoading := False\<rparr>))"

section \<open>Events of a stream\<close>

text \<open>
  The events among the outcomes of a sequence of lines: the lines whose JSON is one
  of the three parts. Every other line leads to no call and changes no variable.
\<close>

fun parts_of :: "line_outcome list \<Rightarrow> StreamResponsePart list" where
  "parts_of [] = []"
| "parts_of (Parsed (Part p) # outs) = p # parts_of outs"
| "parts_of (other # outs) = parts_of outs"

text \<open>The values a reader hands out before it reports done, throws or stalls.\<close>

fun read_values :: "read_result list \<Rightarrow> string list" where
  "read_values (ReadValue chunk # reads) = chunk # read_values reads"
| "read_values other = []"

text \<open>How a reader ends when no end event stops the loop before.\<close>

fun reader_end :: "read_result list \<Rightarrow> completion" where
  "reader_end [] = Pending"
| "reader_end (ReadDone # reads) = Returned"
| "reader_end (ReadThrows m # reads) = Threw m"
| "reader_end (ReadValue chunk # reads) = reader_end reads"

definition stream_lines :: "string list \<Rightarrow> string list" where
  "stream_lines chunks = concat (map lines_of chunks)"

definition delivered_parts :: "json_parse \<Rightarrow> read_result list \<Rightarrow> StreamResponsePart list" where
  "delivered_parts parse reads =
     parts_of (map (line_result parse) (stream_lines (read_values reads)))"

text \<open>
  The calls a sequence of events leads to from given variables, and the variables after
  it (\<open>None\<close> once an end event has made the function return). The loops are shown
  below to compute exactly these.
\<close>

fun calls_of :: "string \<times> string list \<Rightarrow> StreamResponsePart list \<Rightarrow> callback list" where
  "calls_of (acc, srcs) [] = []"
| "calls_of (acc, srcs) (StreamMetadata s f u # ps) =
     OnStreamUpdate acc s # calls_of (acc, s) ps"
| "calls_of (acc, srcs) (StreamChunk c # ps) =
     OnStreamUpdate (acc @ c) srcs # calls_of (acc @ c, srcs) ps"
| "calls_of (acc, srcs) (StreamEnd full t g # ps) = [OnStreamEnd full]"

fun vars_after ::
  "string \<times> string list \<Rightarrow> StreamResponsePart list \<Rightarrow> (string \<times> string list) option" where
  "vars_after (acc, srcs) [] = Some (acc, srcs)"
| "vars_after (acc, srcs) (StreamMetadata s f u # ps) = vars_after (acc, s) ps"
| "vars_after (acc, srcs) (StreamChunk c # ps) = vars_after (acc @ c, srcs) ps"
| "vars_after (acc, srcs) (StreamEnd full t g # ps) = None"

text \<open>
  The text chunks of a response deliver a sequence of events when their lines, in
  order, begin with one line per event; what follows the last of them is free.
\<close>

definition delivers :: "json_parse \<Rightarrow> string list \<Rightarrow> StreamResponsePart list \<Rightarrow> bool" where
  "delivers parse chunks events =
     (take (length events) (map (line_result parse) (stream_lines chunks)) =
        map (\<lambda>e. Parsed (Part e)) events)"

text \<open>Modelled from the spec: the Generation Orchestrator of the backend, whose code is not
  among the sources. For a successful query it emits one metadata event carrying the
  source list and the two counts, then one chunk event per increment of generated text,
  in generation order, then one end event with the full concatenated answer text, a
  completion timestamp and the elapsed generation time.
\<close>

definition generation_events ::
  "string list \<Rightarrow> int \<Rightarrow> int \<Rightarrow> string list \<Rightarrow> string \<Rightarrow> string \<Rightarrow> StreamResponsePart list" where
  "generation_events srcs found used increments stamp elapsed =
     StreamMetadata srcs (real_of_int found) (real_of_int used) # map StreamChunk increments
       @ [StreamEnd (concat increments) stamp elapsed]"

section \<open>Sample inputs\<close>

text \<open>
  Four lines as the backend writes them, one JSON object each, and a stand-in for
  \<open>JSON.parse\<close> that knows these four texts, \<open>null\<close> and \<open>7\<close>, and takes every
  other text for a syntax error. They are used where a statement is evaluated at a
  concrete stream.
\<close>

definition metadata_line :: string where
  \<open>metadata_line =
     ''{"type":"metadata","sources":["src"],"relevant_chunks_found":2,"context_chunks_used":1}''\<close>

definition chunk1_line :: string where
  \<open>chunk1_line = ''{"type":"chunk","content":"Nige"}''\<close>

definition chunk2_line :: string where
  \<open>chunk2_line = ''{"type":"chunk","content":"ria"}''\<close>

definition end_line :: string where
  \<open>end_line =
     ''{"type":"end","full_answer":"Nigeria","timestamp":"t","generation_time":"1s"}''\<close>

definition sample_parse :: json_parse where
  "sample_parse s =
     (if s = metadata_line then Some (Part (StreamMetadata [''src''] 2 1))
      else if s = chunk1_line then Some (Part (StreamChunk ''Nige''))
      else if s = chunk2_line then Some (Part (StreamChunk ''ria''))
      else if s = end_line then Some (Part (StreamEnd ''Nigeria'' ''t'' ''1s''))
      else if s = ''null'' then Some JsonNull
      else if s = ''7'' then Some JsonOther
      else None)"

text \<open>
  A response whose two chunks carry the four events, the third with the prefix
  \<open>data: \<close>, and one more line after the end event; one whose reader throws after
  the first chunk event; one whose reader reports done with no end event; one whose
  reader stalls.
\<close>

definition sample_chunks :: "string list" where
  "sample_chunks =
     [metadata_line @ CHR 0x0A # chunk1_line @ [CHR 0x0A],
      ''data: '' @ chunk2_line @ CHR 0x0A # end_line @ CHR 0x0A # chunk1_line @ [CHR 0x0A]]"

definition sample_response :: Response where
  "sample_response = \<lparr>ok = True, status = 200, json = JsonPending,
     body = Some (map ReadValue sample_chunks @ [ReadValue chunk2_line, ReadThrows ''late''])\<rparr>"

definition failing_response :: Response where
  "failing_response = \<lparr>ok = True, status = 200, json = JsonPending,
     body = Some [ReadValue (metadata_line @ CHR 0x0A # chunk1_line @ [CHR 0x0A]),
                  ReadThrows ''connection reset'']\<rparr>"

definition truncated_response :: Response where
  "truncated_response = \<lparr>ok = True, status = 200, json = JsonPending,
     body = Some [ReadValue (metadata_line @ CHR 0x0A # chunk1_line @ [CHR 0x0A]), ReadDone]\<rparr>"

definition stalled_response :: Response where
  "stalled_response = \<lparr>ok = True, status = 200, json = JsonPending,
     body = Some [ReadValue (metadata_line @ CHR 0x0A # chunk1_line @ [CHR 0x0A])]\<rparr>"

text \<open>
  The bytes of the four events, one line each, in a single chunk; the same bytes with
  a read boundary inside the first chunk event and one inside the end event; and the
  same bytes with a read boundary inside the metadata event. Each reader reports done
  after them.
\<close>

definition whole_chunks :: "string list" where
  "whole_chunks =
     [metadata_line @ CHR 0x0A # chunk1_line @ CHR 0x0A # chunk2_line @ CHR 0x0A # end_line
        @ [CHR 0x0A]]"

definition cut_chunks :: "string list" where
  "cut_chunks =
     [metadata_line @ CHR 0x0A # take 10 chunk1_line,
      drop 10 chunk1_line @ CHR 0x0A # chunk2_line @ CHR 0x0A # take 12 end_line,
      drop 12 end_line @ [CHR 0x0A]]"

definition cut_metadata_chunks :: "string list" where
  "cut_metadata_chunks =
     [take 20 metadata_line,
      drop 20 metadata_line @ CHR 0x0A # chunk1_line @ CHR 0x0A # chunk2_line @ CHR 0x0A
        # end_line @ [CHR 0x0A]]"

definition whole_fetch :: "string \<Rightarrow> fetch_result" where
  "whole_fetch q = FetchResolves \<lparr>ok = True, status = 200, json = JsonPending,
     body = Some (map ReadValue whole_chunks @ [ReadDone])\<rparr>"

definition cut_fetch :: "string \<Rightarrow> fetch_result" where
  "cut_fetch q = FetchResolves \<lparr>ok = True, status = 200, json = JsonPending,
     body = Some (map ReadValue cut_chunks @ [ReadDone])\<rparr>"

definition cut_metadata_fetch :: "string \<Rightarrow> fetch_result" where
  "cut_metadata_fetch q = FetchResolves \<lparr>ok = True, status = 200, json = JsonPending,
     body = Some (map ReadValue cut_metadata_chunks @ [ReadDone])\<rparr>"

definition sample_fetch :: "string \<Rightarrow> fetch_result" where
  "sample_fetch q = FetchResolves sample_response"

definition failing_fetch :: "string \<Rightarrow> fetch_result" where
  "failing_fetch q = FetchResolves failing_response"

definition truncated_fetch :: "string \<Rightarrow> fetch_result" where
  "truncated_fetch q = FetchResolves truncated_response"

definition stalled_fetch :: "string \<Rightarrow> fetch_result" where
  "stalled_fetch q = FetchResolves stalled_response"

definition sample_post :: "string \<Rightarrow> nat \<Rightarrow> QuestionResponse post_result" where
  "sample_post q maxSources = PostResolves \<lparr>question = q, answer = ''Nigeria'',
     sources = [''src''], relevant_chunks_found = 2, context_chunks_used = 1,
     timestamp = ''t'', response_time_ms = 1000\<rparr>"

definition sample_chat :: chat where
  "sample_chat = \<lparr>messages = [], isLoading = False, apiError = None, isInitialized = True\<rparr>"

definition sample_times :: times where
  "sample_times = \<lparr>now_user = 7, now_assistant = 7, date_user = 7, date_loading = 7,
     date_final = 9\<rparr>"

section \<open>The loops compute the calls of the events delivered\<close>

declare show_nat.simps [simp del]

lemma parts_of_append: "parts_of (xs @ ys) = parts_of xs @ parts_of ys"
  by (induction xs rule: parts_of.induct) auto

lemma parts_of_Cons: "parts_of (x # xs) = parts_of [x] @ parts_of xs"
  by (metis append_Cons append_Nil parts_of_append)

lemma calls_of_append:
  "calls_of vars (ps @ qs) =
     (case vars_after vars ps of None \<Rightarrow> calls_of vars ps
      | Some vars' \<Rightarrow> calls_of vars ps @ calls_of vars' qs)"
  by (induction vars ps rule: calls_of.induct) (auto split: option.splits)

lemma vars_after_append:
  "vars_after vars (ps @ qs) =
     (case vars_after vars ps of None \<Rightarrow> None | Some vars' \<Rightarrow> vars_after vars' qs)"
  by (induction vars ps rule: vars_after.induct) auto

lemma on_parsed_calls:
  "on_parsed vars out = (calls_of vars (parts_of [out]), vars_after vars (parts_of [out]))"
  by (induction vars out rule: on_parsed.induct) auto

lemma for_lines_calls:
  "for_lines parse vars ls =
     (calls_of vars (parts_of (map (line_result parse) ls)),
      vars_after vars (parts_of (map (line_result parse) ls)))"
proof (induction ls arbitrary: vars)
  case Nil
  show ?case by (cases vars) simp
next
  case (Cons l ls)
  have split: "parts_of (map (line_result parse) (l # ls)) =
      parts_of [line_result parse l] @ parts_of (map (line_result parse) ls)"
    by (simp only: list.map) (rule parts_of_Cons)
  show ?case
  proof (cases "vars_after vars (parts_of [line_result parse l])")
    case None
    then show ?thesis
      unfolding split calls_of_append vars_after_append
      by (simp add: process_line_def on_parsed_calls)
  next
    case (Some vars')
    then show ?thesis
      unfolding split calls_of_append vars_after_append
      by (simp add: process_line_def on_parsed_calls Cons.IH)
  qed
qed

lemma delivered_parts_value:
  "delivered_parts parse (ReadValue chunk # reads) =
     parts_of (map (line_result parse) (lines_of chunk)) @ delivered_parts parse reads"
  by (simp add: delivered_parts_def stream_lines_def parts_of_append)

lemma read_loop_calls:
  "read_loop parse vars reads =
     (calls_of vars (delivered_parts parse reads),
      (case vars_after vars (delivered_parts parse reads) of
         None \<Rightarrow> Returned
       | Some vars' \<Rightarrow> reader_end reads))"
proof (induction parse vars reads rule: read_loop.induct)
  case (1 parse vars)
  show ?case by (cases vars) (simp add: delivered_parts_def stream_lines_def)
next
  case (2 parse vars reads)
  show ?case by (cases vars) (simp add: delivered_parts_def stream_lines_def)
next
  case (3 parse vars m reads)
  show ?case by (cases vars) (simp add: delivered_parts_def stream_lines_def)
next
  case (4 parse vars chunk reads)
  show ?case
  proof (cases "vars_after vars (parts_of (map (line_result parse) (lines_of chunk)))")
    case None
    then show ?thesis
      unfolding delivered_parts_value calls_of_append vars_after_append
      by (simp add: for_lines_calls)
  next
    case (Some vars')
    then have "read_loop parse vars' reads =
      (calls_of vars' (delivered_parts parse reads),
       (case vars_after vars' (delivered_parts parse reads) of
          None \<Rightarrow> Returned
        | Some v \<Rightarrow> reader_end reads))"
      using 4 [of _ "Some vars'" vars'] by (simp add: for_lines_calls)
    with Some show ?thesis
      unfolding delivered_parts_value calls_of_append vars_after_append
      by (simp add: for_lines_calls split: option.splits)
  qed
qed

lemma calls_of_updates:
  "vars_after vars ps = Some vars' \<Longrightarrow> list_all is_OnStreamUpdate (calls_of vars ps)"
  by (induction vars ps rule: calls_of.induct) auto

lemma calls_of_ended:
  "vars_after vars ps = None \<Longrightarrow>
     \<exists>ups full. calls_of vars ps = ups @ [OnStreamEnd full] \<and> list_all is_OnStreamUpdate ups"
proof (induction vars ps rule: calls_of.induct)
  case (2 acc srcs s f u ps)
  then obtain ups full where "calls_of (acc, s) ps = ups @ [OnStreamEnd full]"
    "list_all is_OnStreamUpdate ups" by auto
  then have "calls_of (acc, srcs) (StreamMetadata s f u # ps) = (OnStreamUpdate acc s # ups) @ [OnStreamEnd full]
    \<and> list_all is_OnStreamUpdate (OnStreamUpdate acc s # ups)" by simp
  then show ?case by blast
next
  case (3 acc srcs c ps)
  then obtain ups full where "calls_of (acc @ c, srcs) ps = ups @ [OnStreamEnd full]"
    "list_all is_OnStreamUpdate ups" by auto
  then have "calls_of (acc, srcs) (StreamChunk c # ps) = (OnStreamUpdate (acc @ c) srcs # ups) @ [OnStreamEnd full]
    \<and> list_all is_OnStreamUpdate (OnStreamUpdate (acc @ c) srcs # ups)" by simp
  then show ?case by blast
qed auto

lemma calls_of_nth:
  "i < length (calls_of (acc, srcs) ps) \<Longrightarrow> calls_of (acc, srcs) ps ! i = OnStreamUpdate x s \<Longrightarrow>
     x = acc @ concat (map chunk_content (filter is_StreamChunk (take (Suc i) ps)))"
proof (induction "(acc, srcs)" ps arbitrary: acc srcs i rule: calls_of.induct)
  case (2 acc srcs s' f u ps)
  then show ?case by (cases i) auto
next
  case (3 acc srcs c ps)
  then show ?case by (cases i) auto
qed auto

section \<open>Lines of a chunk\<close>

lemma split_newline_nonempty: "split_newline s \<noteq> []"
  by (induction s) (auto split: list.splits)

lemma split_newline_append:
  "split_newline (a @ CHR 0x0A # b) = split_newline a @ split_newline b"
  by (induction a) (auto split: list.splits simp: split_newline_nonempty)

lemma split_newline_single: "CHR 0x0A \<notin> set line \<Longrightarrow> split_newline line = [line]"
  by (induction line) auto

lemma lines_of_append: "lines_of (a @ CHR 0x0A # b) = lines_of a @ lines_of b"
  by (simp add: lines_of_def split_newline_append)

lemma process_line_invalid:
  "parse (jsonLine_of line) = None \<Longrightarrow> process_line parse vars line = ([], Some vars)"
  by (cases vars) (simp add: process_line_def line_result_def Let_def)

lemma for_lines_append:
  "for_lines parse vars (xs @ ys) =
     (case for_lines parse vars xs of
        (calls, None) \<Rightarrow> (calls, None)
      | (calls, Some vars') \<Rightarrow>
          (case for_lines parse vars' ys of (calls', r) \<Rightarrow> (calls @ calls', r)))"
  by (induction xs arbitrary: vars) (auto split: prod.splits option.splits)

lemma for_lines_invalid:
  assumes "parse (jsonLine_of line) = None"
  shows "for_lines parse vars (before @ line # after) = for_lines parse vars (before @ after)"
  unfolding for_lines_append
  using assms by (simp add: process_line_invalid [of parse line] split: prod.splits option.splits)

lemma for_lines_invalid_chunk:
  assumes "parse (jsonLine_of line) = None" and "CHR 0x0A \<notin> set line"
  shows "for_lines parse vars (lines_of (a @ CHR 0x0A # line @ CHR 0x0A # b)) =
         for_lines parse vars (lines_of (a @ CHR 0x0A # b))"
proof (cases "trim line = []")
  case True
  with assms(2) show ?thesis
    by (simp add: lines_of_append) (simp add: lines_of_def split_newline_single)
next
  case False
  with assms(2) have "lines_of line = [line]"
    by (simp add: lines_of_def split_newline_single)
  then show ?thesis
    using assms(1) by (simp add: lines_of_append for_lines_invalid [of parse line])
qed

lemma read_loop_invalid:
  assumes "parse (jsonLine_of line) = None" and "CHR 0x0A \<notin> set line"
  shows "read_loop parse vars (reads @ ReadValue (a @ CHR 0x0A # line @ CHR 0x0A # b) # reads') =
         read_loop parse vars (reads @ ReadValue (a @ CHR 0x0A # b) # reads')"
proof (induction reads arbitrary: vars)
  case Nil
  show ?case using assms by (simp add: for_lines_invalid_chunk [of parse line])
next
  case (Cons r reads)
  show ?case by (cases r) (simp_all add: Cons.IH)
qed

section \<open>The calls of a successful query\<close>

lemma calls_of_chunks_end:
  "calls_of (acc, srcs) (map StreamChunk incs @ StreamEnd full t g # trail) =
     map (\<lambda>k. OnStreamUpdate (acc @ concat (take k incs)) srcs) [1..<Suc (length incs)]
       @ [OnStreamEnd full]"
proof (induction incs arbitrary: acc)
  case Nil
  show ?case by simp
next
  case (Cons x xs)
  have "[1..<Suc (length (x # xs))] = 1 # map Suc [1..<Suc (length xs)]"
    by (simp add: upt_conv_Cons map_Suc_upt del: upt_Suc)
  then show ?case
    by (simp add: Cons.IH comp_def del: upt_Suc)
qed

lemma calls_of_events:
  "calls_of ([], []) (StreamMetadata srcs f u # map StreamChunk incs @ StreamEnd full t g # trail) =
     map (\<lambda>k. OnStreamUpdate (concat (take k incs)) srcs) [0..<Suc (length incs)]
       @ [OnStreamEnd full]"
proof -
  have "[0..<Suc (length incs)] = 0 # [1..<Suc (length incs)]"
    by (simp add: upt_conv_Cons del: upt_Suc)
  then show ?thesis
    using calls_of_chunks_end [of "[]" srcs incs full t g trail] by (simp del: upt_Suc)
qed

lemma vars_after_chunks_end:
  "vars_after vars (map StreamChunk incs @ StreamEnd full t g # trail) = None"
  by (induction incs arbitrary: vars) (case_tac vars, simp)+

lemma vars_after_events:
  "vars_after vars (StreamMetadata srcs f u # map StreamChunk incs @ StreamEnd full t g # trail) = None"
  by (cases vars) (simp add: vars_after_chunks_end)

lemma read_values_append: "read_values (map ReadValue chunks @ rest) = chunks @ read_values rest"
  by (induction chunks) auto

lemma delivers_parts:
  assumes "delivers parse chunks events"
  shows "\<exists>trail. delivered_parts parse (map ReadValue chunks @ rest) = events @ trail"
proof -
  let ?outs = "map (line_result parse) (stream_lines chunks)"
  have "?outs = map (\<lambda>e. Parsed (Part e)) events @ drop (length events) ?outs"
    using assms append_take_drop_id [of "length events" ?outs] by (simp add: delivers_def)
  moreover have "parts_of (map (\<lambda>e. Parsed (Part e)) events) = events"
    by (induction events) auto
  ultimately have "parts_of ?outs = events @ parts_of (drop (length events) ?outs)"
    by (metis parts_of_append)
  then show ?thesis
    by (simp add: delivered_parts_def read_values_append stream_lines_def parts_of_append)
qed

lemma stream_of_events:
  assumes "fetch q = FetchResolves r" and "ok r"
    and "body r = Some (map ReadValue chunks @ rest)"
    and "delivers parse chunks
           (StreamMetadata srcs f u # map StreamChunk incs @ [StreamEnd full t g])"
  shows "askQuestionStream parse fetch q =
     (map (\<lambda>k. OnStreamUpdate (concat (take k incs)) srcs) [0..<Suc (length incs)]
        @ [OnStreamEnd full], Returned)"
proof -
  obtain trail where "delivered_parts parse (map ReadValue chunks @ rest) =
      (StreamMetadata srcs f u # map StreamChunk incs @ [StreamEnd full t g]) @ trail"
    using delivers_parts [OF assms(4)] by blast
  then have parts: "delivered_parts parse (map ReadValue chunks @ rest) =
      StreamMetadata srcs f u # map StreamChunk incs @ StreamEnd full t g # trail"
    by simp
  have "read_loop parse ([], []) (map ReadValue chunks @ rest) =
     (map (\<lambda>k. OnStreamUpdate (concat (take k incs)) srcs) [0..<Suc (length incs)]
        @ [OnStreamEnd full], Returned)"
    unfolding read_loop_calls parts calls_of_events vars_after_events by simp
  then show ?thesis
    using assms(1-3) by (simp add: askQuestionStream_def stream_try_def)
qed

lemma generation_events_chunks:
  "concat (map chunk_content (filter is_StreamChunk (generation_events srcs found used incs stamp elapsed)))
     = concat incs"
  by (simp add: generation_events_def comp_def)

lemma generation_events_last:
  "last (generation_events srcs found used incs stamp elapsed) = StreamEnd (concat incs) stamp elapsed"
  by (simp add: generation_events_def)

lemma stream_try_throws_updates:
  assumes "snd (stream_try parse fetched) = Threw e"
  shows "list_all is_OnStreamUpdate (fst (stream_try parse fetched))"
proof (cases fetched)
  case (FetchResolves r)
  show ?thesis
  proof (cases "ok r \<and> body r \<noteq> None")
    case True
    then obtain reads where reads: "body r = Some reads" by auto
    with True FetchResolves assms
    obtain v where "vars_after ([], []) (delivered_parts parse reads) = Some v"
      by (auto simp: stream_try_def read_loop_calls split: option.splits)
    then have "list_all is_OnStreamUpdate (calls_of ([], []) (delivered_parts parse reads))"
      by (rule calls_of_updates)
    with True reads FetchResolves show ?thesis
      by (simp add: stream_try_def read_loop_calls)
  next
    case False
    with FetchResolves show ?thesis
      by (auto simp: stream_try_def split: json_result.splits)
  qed
qed (simp_all add: stream_try_def)

section \<open>The ways the outer try throws\<close>

lemma reader_end_append_throws:
  "reader_end (map ReadValue chunks @ ReadThrows e # rest) = Threw e"
  by (induction chunks) auto

lemma stream_try_fetch_rejects: "stream_try parse (FetchRejects e) = ([], Threw e)"
  by (simp add: stream_try_def)

lemma stream_try_not_ok:
  "\<not> ok r \<Longrightarrow> json r = JsonData err \<Longrightarrow>
     stream_try parse (FetchResolves r) =
       ([], Threw (or_else err (''HTTP error! status: '' @ show_nat (status r))))"
  by (simp add: stream_try_def)

lemma stream_try_read_throws:
  assumes "ok r" and "body r = Some (map ReadValue chunks @ ReadThrows e # rest)"
    and "vars_after ([], []) (parts_of (map (line_result parse) (stream_lines chunks))) = Some v"
  shows "snd (stream_try parse (FetchResolves r)) = Threw e"
proof -
  have "delivered_parts parse (map ReadValue chunks @ ReadThrows e # rest) =
      parts_of (map (line_result parse) (stream_lines chunks))"
    by (simp add: delivered_parts_def read_values_append)
  with assms show ?thesis
    by (simp add: stream_try_def read_loop_calls reader_end_append_throws)
qed

section \<open>A terminal call is the last call\<close>

lemma calls_of_butlast: "list_all is_OnStreamUpdate (butlast (calls_of vars ps))"
proof (cases "vars_after vars ps")
  case None
  then obtain ups full where "calls_of vars ps = ups @ [OnStreamEnd full]"
      "list_all is_OnStreamUpdate ups"
    using calls_of_ended by blast
  then show ?thesis by simp
next
  case (Some vars')
  then have "list_all is_OnStreamUpdate (calls_of vars ps)" by (rule calls_of_updates)
  then show ?thesis by (simp add: list_all_iff) (meson in_set_butlastD)
qed

lemma stream_try_butlast:
  "list_all is_OnStreamUpdate (butlast (fst (stream_try parse fetched)))"
proof (cases fetched)
  case (FetchResolves r)
  show ?thesis
  proof (cases "ok r \<and> body r \<noteq> None")
    case True
    then obtain reads where "body r = Some reads" by auto
    with True FetchResolves show ?thesis
      by (simp add: stream_try_def read_loop_calls calls_of_butlast)
  next
    case False
    with FetchResolves show ?thesis
      by (auto simp: stream_try_def split: json_result.splits)
  qed
qed (simp_all add: stream_try_def)

lemma askQuestionStream_butlast:
  "list_all is_OnStreamUpdate (butlast (fst (askQuestionStream parse fetch q)))"
proof (cases "\<exists>e. snd (stream_try parse (fetch q)) = Threw e")
  case True
  then obtain e where e: "snd (stream_try parse (fetch q)) = Threw e" by blast
  then have "list_all is_OnStreamUpdate (fst (stream_try parse (fetch q)))"
    by (rule stream_try_throws_updates)
  with e show ?thesis
    by (cases "stream_try parse (fetch q)") (simp add: askQuestionStream_def)
next
  case False
  then have "askQuestionStream parse fetch q = stream_try parse (fetch q)"
    by (cases "stream_try parse (fetch q)"; cases "snd (stream_try parse (fetch q))")
      (auto simp: askQuestionStream_def)
  then show ?thesis by (simp add: stream_try_butlast)
qed

section \<open>The hook after the calls\<close>

lemma invoke_last_id:
  assumes "messages (fst s) \<noteq> []" and "msg_id (last (messages (fst s))) = aid"
  shows "messages (fst (invoke aid d s c)) \<noteq> [] \<and>
         msg_id (last (messages (fst (invoke aid d s c)))) = aid"
  using assms
  by (cases c; cases s) (simp_all add: onStreamUpdate_def onStreamEnd_def onError_def last_map)

lemma foldl_invoke_last_id:
  assumes "messages (fst s) \<noteq> []" and "msg_id (last (messages (fst s))) = aid"
  shows "messages (fst (foldl (invoke aid d) s cs)) \<noteq> [] \<and>
         msg_id (last (messages (fst (foldl (invoke aid d) s cs)))) = aid"
  using assms
proof (induction cs arbitrary: s)
  case Nil
  then show ?case by simp
next
  case (Cons c cs)
  show ?case
    using Cons.IH [of "invoke aid d s c"] invoke_last_id [OF Cons.prems, of d c] by simp
qed

lemma invoke_end_last:
  assumes "messages (fst s) \<noteq> []" and "msg_id (last (messages (fst s))) = aid"
  shows "msg_content (last (messages (fst (invoke aid d s (OnStreamEnd full))))) = full \<and>
         msg_sources (last (messages (fst (invoke aid d s (OnStreamEnd full))))) = Some (snd s) \<and>
         msg_isLoading (last (messages (fst (invoke aid d s (OnStreamEnd full))))) = Some False \<and>
         isLoading (fst (invoke aid d s (OnStreamEnd full))) = False"
  using assms by (cases s) (simp add: onStreamEnd_def last_map)

lemma invoke_error_last:
  assumes "messages (fst s) \<noteq> []" and "msg_id (last (messages (fst s))) = aid"
  shows "msg_content (last (messages (fst (invoke aid d s (OnError m))))) =
           ''Sorry, I encountered an error during streaming. Please try again.'' \<and>
         msg_error (last (messages (fst (invoke aid d s (OnError m))))) = Some m \<and>
         msg_isLoading (last (messages (fst (invoke aid d s (OnError m))))) = Some False \<and>
         apiError (fst (invoke aid d s (OnError m))) = Some m \<and>
         isLoading (fst (invoke aid d s (OnError m))) = False"
  using assms by (cases s) (simp add: onError_def last_map)

lemma foldl_updates_sources:
  "snd (foldl (invoke aid d) s (map (\<lambda>k. OnStreamUpdate (f k) srcs) ks)) =
     (if ks = [] then snd s else srcs)"
proof (induction ks arbitrary: s)
  case Nil
  show ?case by simp
next
  case (Cons k ks)
  show ?case by (cases s) (simp add: Cons.IH onStreamUpdate_def)
qed

lemma sendMessage_start:
  assumes "\<not> isLoading st"
  shows "\<exists>s0. sendMessage parse fetch t st q =
           fst (foldl (invoke (''assistant-'' @ show_nat (now_assistant t)) (date_final t)) s0
                  (fst (askQuestionStream parse fetch q))) \<and>
         messages (fst s0) \<noteq> [] \<and>
         msg_id (last (messages (fst s0))) = ''assistant-'' @ show_nat (now_assistant t) \<and>
         snd s0 = []"
  using assms
  by (simp add: sendMessage_def Let_def) (rule exI, rule conjI, rule refl, simp)

lemma sendMessage_ended:
  assumes "\<not> isLoading st"
    and "fst (askQuestionStream parse fetch q) =
           map (\<lambda>k. OnStreamUpdate (f k) srcs) ks @ [OnStreamEnd full]"
    and "ks \<noteq> []"
  shows "msg_content (last (messages (sendMessage parse fetch t st q))) = full \<and>
         msg_sources (last (messages (sendMessage parse fetch t st q))) = Some srcs \<and>
         isLoading (sendMessage parse fetch t st q) = False"
proof -
  let ?aid = "''assistant-'' @ show_nat (now_assistant t)"
  obtain s0 where s0: "sendMessage parse fetch t st q =
           fst (foldl (invoke ?aid (date_final t)) s0 (fst (askQuestionStream parse fetch q)))"
      "messages (fst s0) \<noteq> []" "msg_id (last (messages (fst s0))) = ?aid"
    using sendMessage_start [OF assms(1)] by blast
  let ?s1 = "foldl (invoke ?aid (date_final t)) s0 (map (\<lambda>k. OnStreamUpdate (f k) srcs) ks)"
  have last1: "messages (fst ?s1) \<noteq> [] \<and> msg_id (last (messages (fst ?s1))) = ?aid"
    using foldl_invoke_last_id [OF s0(2,3)] by blast
  have src1: "snd ?s1 = srcs"
    using foldl_updates_sources [of ?aid "date_final t" s0 f srcs ks] assms(3) by simp
  have "sendMessage parse fetch t st q = fst (invoke ?aid (date_final t) ?s1 (OnStreamEnd full))"
    unfolding s0(1) assms(2) by simp
  then show ?thesis
    using invoke_end_last [of ?s1 ?aid "date_final t" full] last1 src1 by simp
qed

lemma sendMessage_error:
  assumes "\<not> isLoading st"
    and "fst (askQuestionStream parse fetch q) = ups @ [OnError m]"
  shows "msg_content (last (messages (sendMessage parse fetch t st q))) =
           ''Sorry, I encountered an error during streaming. Please try again.'' \<and>
         msg_error (last (messages (sendMessage parse fetch t st q))) = Some m \<and>
         apiError (sendMessage parse fetch t st q) = Some m \<and>
         isLoading (sendMessage parse fetch t st q) = False"
proof -
  let ?aid = "''assistant-'' @ show_nat (now_assistant t)"
  obtain s0 where s0: "sendMessage parse fetch t st q =
           fst (foldl (invoke ?aid (date_final t)) s0 (fst (askQuestionStream parse fetch q)))"
      "messages (fst s0) \<noteq> []" "msg_id (last (messages (fst s0))) = ?aid"
    using sendMessage_start [OF assms(1)] by blast
  let ?s1 = "foldl (invoke ?aid (date_final t)) s0 ups"
  have last1: "messages (fst ?s1) \<noteq> [] \<and> msg_id (last (messages (fst ?s1))) = ?aid"
    using foldl_invoke_last_id [OF s0(2,3)] by blast
  have "sendMessage parse fetch t st q = fst (invoke ?aid (date_final t) ?s1 (OnError m))"
    unfolding s0(1) assms(2) by simp
  then show ?thesis
    using invoke_error_last [of ?s1 ?aid "date_final t" m] last1 by simp
qed

lemma sendMessage_nonstreaming_resolved:
  assumes "\<not> isLoading st" and "post q 5 = PostResolves resp"
  shows "msg_content (last (messages (sendMessage_nonstreaming post t st q))) = answer resp \<and>
         msg_sources (last (messages (sendMessage_nonstreaming post t st q))) = Some (sources resp) \<and>
         isLoading (sendMessage_nonstreaming post t st q) = False"
  using assms by (simp add: sendMessage_nonstreaming_def Let_def askQuestion_def last_map)

section \<open>Evaluating the sample inputs\<close>

lemmas sample_simps = metadata_line_def chunk1_line_def chunk2_line_def end_line_def
  sample_chunks_def sample_response_def failing_response_def
  truncated_response_def stalled_response_def sample_fetch_def failing_fetch_def
  truncated_fetch_def stalled_fetch_def sample_post_def sample_chat_def
  whole_chunks_def cut_chunks_def cut_metadata_chunks_def whole_fetch_def cut_fetch_def
  cut_metadata_fetch_def sample_times_def sample_parse_def
  lines_of_def trim_def isWhitespace_def process_line_def line_result_def jsonLine_of_def
  stream_lines_def

lemma sample_delivers:
  "delivers sample_parse sample_chunks (generation_events [''src''] 2 1 [''Nige'', ''ria''] ''t'' ''1s'')"
  by (simp add: delivers_def generation_events_def sample_simps)

section \<open>askQuestion hands the data on\<close>

lemma askQuestion_returns_data:
  "post q maxSources = PostResolves data \<Longrightarrow> askQuestion post q maxSources = Inr data"
  by (simp add: askQuestion_def)

lemma askQuestion_rethrows:
  "post q maxSources = PostRejects error \<Longrightarrow>
     askQuestion post q maxSources = Inl (response_error_message error)"
  by (simp add: askQuestion_def)

text \<open>Nothing is validated: a count that is no integer is handed on as it came.\<close>

lemma askQuestion_does_not_validate:
  "askQuestion (\<lambda>q n. PostResolves (JObject [(''relevant_chunks_found'', JNumber 2.5)]))
     ''When?'' 5 = Inr (JObject [(''relevant_chunks_found'', JNumber 2.5)]) \<and>
   \<not> is_integer (property (JObject [(''relevant_chunks_found'', JNumber 2.5)])
     ''relevant_chunks_found'') \<and>
   \<not> conforms_QuestionResponse (JObject [(''relevant_chunks_found'', JNumber 2.5)])"
  by (simp add: askQuestion_def conforms_QuestionResponse_def)

section \<open>Streams whose events arrive as whole lines\<close>

text \<open>
  When every event of a successful query reaches the function as one whole line of a
  chunk, the last update carries the full answer, the last call is \<open>onStreamEnd\<close> with
  it, and the hook ends with it.
\<close>

theorem stream_answer_is_full_answer:
  assumes "\<not> isLoading st" and "fetch q = FetchResolves r" and "ok r"
    and "body r = Some (map ReadValue chunks @ rest)"
    and "delivers parse chunks (generation_events srcs found used incs stamp elapsed)"
  shows "concat (map chunk_content
           (filter is_StreamChunk (generation_events srcs found used incs stamp elapsed))) =
         full_answer (last (generation_events srcs found used incs stamp elapsed)) \<and>
         last (butlast (fst (askQuestionStream parse fetch q))) =
           OnStreamUpdate
             (full_answer (last (generation_events srcs found used incs stamp elapsed))) srcs \<and>
         last (fst (askQuestionStream parse fetch q)) =
           OnStreamEnd (full_answer (last (generation_events srcs found used incs stamp elapsed))) \<and>
         msg_content (last (messages (sendMessage parse fetch t st q))) =
           full_answer (last (generation_events srcs found used incs stamp elapsed))"
proof -
  have run: "askQuestionStream parse fetch q =
     (map (\<lambda>k. OnStreamUpdate (concat (take k incs)) srcs) [0..<Suc (length incs)]
        @ [OnStreamEnd (concat incs)], Returned)"
    using assms(2-5) unfolding generation_events_def by (rule stream_of_events)
  then have calls: "fst (askQuestionStream parse fetch q) =
     map (\<lambda>k. OnStreamUpdate (concat (take k incs)) srcs) [0..<Suc (length incs)]
        @ [OnStreamEnd (concat incs)]"
    by (simp del: upt_Suc)
  have some: "[0..<Suc (length incs)] \<noteq> []" by simp
  have final: "msg_content (last (messages (sendMessage parse fetch t st q))) = concat incs"
    using sendMessage_ended [OF assms(1) calls some] by simp
  have "last (butlast (fst (askQuestionStream parse fetch q))) =
      OnStreamUpdate (concat incs) srcs"
    unfolding calls by (simp add: butlast_append)
  with run final show ?thesis
    by (simp add: generation_events_chunks generation_events_last del: upt_Suc)
qed

theorem stream_answer_is_full_answer_witness:
  "\<not> isLoading sample_chat \<and>
   ok sample_response \<and>
   body sample_response = Some (map ReadValue sample_chunks @ [ReadValue chunk2_line, ReadThrows ''late'']) \<and>
   delivers sample_parse sample_chunks
     (generation_events [''src''] 2 1 [''Nige'', ''ria''] ''t'' ''1s'') \<and>
   concat (map chunk_content (filter is_StreamChunk
     (generation_events [''src''] 2 1 [''Nige'', ''ria''] ''t'' ''1s''))) = ''Nigeria'' \<and>
   full_answer (last (generation_events [''src''] 2 1 [''Nige'', ''ria''] ''t'' ''1s'')) = ''Nigeria'' \<and>
   last (butlast (fst (askQuestionStream sample_parse sample_fetch ''When?''))) =
     OnStreamUpdate ''Nigeria'' [''src''] \<and>
   last (fst (askQuestionStream sample_parse sample_fetch ''When?'')) =
     OnStreamEnd ''Nigeria'' \<and>
   msg_content (last (messages
     (sendMessage sample_parse sample_fetch sample_times sample_chat
        ''When?''))) = ''Nigeria''"
proof -
  have h1: "\<not> isLoading sample_chat" by (simp add: sample_chat_def)
  have h2: "sample_fetch ''When?'' = FetchResolves sample_response"
    by (simp add: sample_fetch_def)
  have h3: "ok sample_response" by (simp add: sample_response_def)
  have h4: "body sample_response =
      Some (map ReadValue sample_chunks @ [ReadValue chunk2_line, ReadThrows ''late''])"
    by (simp add: sample_response_def)
  have ev: "full_answer (last (generation_events [''src''] 2 1 [''Nige'', ''ria''] ''t'' ''1s'')) = ''Nigeria''"
    by (simp add: generation_events_def)
  show ?thesis
    using stream_answer_is_full_answer [where fetch = sample_fetch and q = "''When?''"
        and r = sample_response and chunks = sample_chunks
        and rest = "[ReadValue chunk2_line, ReadThrows ''late'']" and parse = sample_parse
        and srcs = "[''src'']" and found = 2 and used = 1 and incs = "[''Nige'', ''ria'']"
        and stamp = "''t''" and elapsed = "''1s''"
        and st = sample_chat and t = sample_times]
      h1 h2 h3 h4 sample_delivers ev
    by simp
qed

text \<open>
  On such a stream the calls are one per event, in the order of the events, and nothing
  after the end event leads to a call.
\<close>

theorem stream_calls_in_order:
  assumes "fetch q = FetchResolves r" and "ok r"
    and "body r = Some (map ReadValue chunks @ rest)"
    and "delivers parse chunks (generation_events srcs found used incs stamp elapsed)"
  shows "askQuestionStream parse fetch q =
     (map (\<lambda>k. OnStreamUpdate (concat (take k incs)) srcs) [0..<Suc (length incs)]
        @ [OnStreamEnd (concat incs)], Returned)"
  using assms unfolding generation_events_def by (rule stream_of_events)

theorem stream_calls_in_order_witness:
  "ok sample_response \<and>
   body sample_response = Some (map ReadValue sample_chunks @ [ReadValue chunk2_line, ReadThrows ''late'']) \<and>
   delivers sample_parse sample_chunks
     (generation_events [''src''] 2 1 [''Nige'', ''ria''] ''t'' ''1s'') \<and>
   askQuestionStream sample_parse sample_fetch ''When?'' =
     ([OnStreamUpdate [] [''src''], OnStreamUpdate ''Nige'' [''src''],
       OnStreamUpdate ''Nigeria'' [''src''], OnStreamEnd ''Nigeria''], Returned)"
proof -
  have h1: "sample_fetch ''When?'' = FetchResolves sample_response"
    by (simp add: sample_fetch_def)
  have h2: "ok sample_response" by (simp add: sample_response_def)
  have h3: "body sample_response =
      Some (map ReadValue sample_chunks @ [ReadValue chunk2_line, ReadThrows ''late''])"
    by (simp add: sample_response_def)
  have ks: "[0..<Suc (length [''Nige'', ''ria''])] = [0, 1, 2]"
    by (simp add: upt_conv_Cons)
  show ?thesis
    using stream_calls_in_order [where fetch = sample_fetch and q = "''When?''"
        and r = sample_response and chunks = sample_chunks
        and rest = "[ReadValue chunk2_line, ReadThrows ''late'']" and parse = sample_parse
        and srcs = "[''src'']" and found = 2 and used = 1 and incs = "[''Nige'', ''ria'']"
        and stamp = "''t''" and elapsed = "''1s''"]
      h1 h2 h3 sample_delivers
    unfolding ks by simp
qed

text \<open>
  On such a stream the streaming hook ends with the content and the sources the
  non-streaming hook ends with.
\<close>

theorem streaming_equals_nonstreaming:
  assumes "\<not> isLoading st" and "post q 5 = PostResolves resp"
    and "fetch q = FetchResolves r" and "ok r"
    and "body r = Some (map ReadValue chunks @ rest)"
    and "delivers parse chunks
           (StreamMetadata (sources resp) found used # map StreamChunk incs
              @ [StreamEnd (answer resp) stamp elapsed])"
  shows "msg_content (last (messages (sendMessage parse fetch t st q))) =
           msg_content (last (messages (sendMessage_nonstreaming post t st q))) \<and>
         msg_sources (last (messages (sendMessage parse fetch t st q))) =
           msg_sources (last (messages (sendMessage_nonstreaming post t st q))) \<and>
         msg_content (last (messages (sendMessage parse fetch t st q))) = answer resp \<and>
         msg_sources (last (messages (sendMessage parse fetch t st q))) = Some (sources resp)"
proof -
  have run: "askQuestionStream parse fetch q =
     (map (\<lambda>k. OnStreamUpdate (concat (take k incs)) (sources resp)) [0..<Suc (length incs)]
        @ [OnStreamEnd (answer resp)], Returned)"
    using assms(3-6) by (rule stream_of_events)
  then have calls: "fst (askQuestionStream parse fetch q) =
     map (\<lambda>k. OnStreamUpdate (concat (take k incs)) (sources resp)) [0..<Suc (length incs)]
        @ [OnStreamEnd (answer resp)]"
    by (simp del: upt_Suc)
  have some: "[0..<Suc (length incs)] \<noteq> []" by simp
  have "msg_content (last (messages (sendMessage parse fetch t st q))) = answer resp \<and>
      msg_sources (last (messages (sendMessage parse fetch t st q))) = Some (sources resp)"
    using sendMessage_ended [OF assms(1) calls some] by simp
  then show ?thesis
    using sendMessage_nonstreaming_resolved [of st post q resp t] assms(1,2) by simp
qed

theorem streaming_equals_nonstreaming_witness:
  "\<not> isLoading sample_chat \<and>
   ok sample_response \<and>
   body sample_response = Some (map ReadValue sample_chunks @ [ReadValue chunk2_line, ReadThrows ''late'']) \<and>
   delivers sample_parse sample_chunks
     (StreamMetadata [''src''] 2 1 # map StreamChunk [''Nige'', ''ria'']
        @ [StreamEnd ''Nigeria'' ''t'' ''1s'']) \<and>
   msg_content (last (messages
     (sendMessage sample_parse sample_fetch sample_times sample_chat
        ''When?''))) = ''Nigeria'' \<and>
   msg_content (last (messages
     (sendMessage_nonstreaming
        sample_post sample_times sample_chat ''When?''))) = ''Nigeria'' \<and>
   msg_sources (last (messages
     (sendMessage sample_parse sample_fetch sample_times sample_chat
        ''When?''))) = Some [''src''] \<and>
   msg_sources (last (messages
     (sendMessage_nonstreaming
        sample_post sample_times sample_chat ''When?''))) = Some [''src'']"
proof -
  let ?resp = "\<lparr>question = ''When?'', answer = ''Nigeria'', sources = [''src''],
           relevant_chunks_found = 2, context_chunks_used = 1, timestamp = ''t'',
           response_time_ms = 1000\<rparr>"
  have h1: "\<not> isLoading sample_chat" by (simp add: sample_chat_def)
  have h2: "sample_post ''When?'' 5 = PostResolves ?resp" by (simp add: sample_post_def)
  have h3: "sample_fetch ''When?'' = FetchResolves sample_response"
    by (simp add: sample_fetch_def)
  have h4: "ok sample_response" by (simp add: sample_response_def)
  have h5: "body sample_response =
      Some (map ReadValue sample_chunks @ [ReadValue chunk2_line, ReadThrows ''late''])"
    by (simp add: sample_response_def)
  have h6: "delivers sample_parse sample_chunks
     (StreamMetadata (sources ?resp) 2 1 # map StreamChunk [''Nige'', ''ria'']
        @ [StreamEnd (answer ?resp) ''t'' ''1s''])"
    using sample_delivers by (simp add: generation_events_def)
  note both = streaming_equals_nonstreaming [where st = sample_chat and post = sample_post
        and q = "''When?''" and resp = ?resp and fetch = sample_fetch and r = sample_response
        and chunks = sample_chunks and rest = "[ReadValue chunk2_line, ReadThrows ''late'']"
        and parse = sample_parse and found = 2 and used = 1 and incs = "[''Nige'', ''ria'']"
        and stamp = "''t''" and elapsed = "''1s''" and t = sample_times,
        OF h1 h2 h3 h4 h5 h6]
  have "msg_content (last (messages
      (sendMessage_nonstreaming sample_post sample_times sample_chat ''When?''))) = ''Nigeria'' \<and>
    msg_sources (last (messages
      (sendMessage_nonstreaming sample_post sample_times sample_chat ''When?''))) = Some [''src'']"
    using both by (metis QuestionResponse.select_convs(2,3))
  then show ?thesis
    using both h1 h4 h5 h6 by simp
qed

section \<open>Claims\<close>

text \<open>
  C1: the claim fails on a successful stream that a read boundary cuts inside a line.
  The function splits each chunk into lines by itself and keeps no rest of a line for
  the next chunk, so both pieces of a cut line fail to parse and the event is lost. On
  the bytes of the events of the answer \<open>Nigeria\<close>, cut inside the first chunk event and
  inside the end event, the chunk contents still concatenate to the \<open>full_answer\<close>, but
  the function makes no call to \<open>onStreamEnd\<close> and the hook ends with the content
  \<open>ria\<close>, still loading.
\<close>

theorem cut_stream_loses_answer:
  "concat cut_chunks = concat whole_chunks \<and>
   delivers sample_parse whole_chunks
     (generation_events [''src''] 2 1 [''Nige'', ''ria''] ''t'' ''1s'') \<and>
   concat (map chunk_content (filter is_StreamChunk
     (generation_events [''src''] 2 1 [''Nige'', ''ria''] ''t'' ''1s''))) = ''Nigeria'' \<and>
   full_answer (last (generation_events [''src''] 2 1 [''Nige'', ''ria''] ''t'' ''1s'')) =
     ''Nigeria'' \<and>
   askQuestionStream sample_parse cut_fetch ''When?'' =
     ([OnStreamUpdate [] [''src''], OnStreamUpdate ''ria'' [''src'']], Returned) \<and>
   msg_content (last (messages
     (sendMessage sample_parse cut_fetch sample_times sample_chat ''When?''))) = ''ria'' \<and>
   isLoading (sendMessage sample_parse cut_fetch sample_times sample_chat ''When?'')"
  by (simp add: delivers_def generation_events_def askQuestionStream_def stream_try_def
      sendMessage_def Let_def onStreamUpdate_def sample_simps)


text \<open>
  C3: when the body of the outer \<open>try\<close> throws, which it does when the fetch rejects
  (\<open>stream_try_fetch_rejects\<close>), when the response is not ok (\<open>stream_try_not_ok\<close>)
  and when a read of the body throws before an end event (\<open>stream_try_read_throws\<close>),
  whatever chunk events were handled before, \<open>onError\<close> is called exactly once, as the last call; every call before
  it is an \<open>onStreamUpdate\<close>; and the assistant message the hook ends with holds the
  error notice in place of the text accumulated so far, the error is recorded and
  \<open>isLoading\<close> is false again.
\<close>

theorem stream_failure_shows_error_only:
  assumes "\<not> isLoading st" and "snd (stream_try parse (fetch q)) = Threw e"
    and "m = (if e = [] then ''Network error during streaming.'' else e)"
  shows "fst (askQuestionStream parse fetch q) = fst (stream_try parse (fetch q)) @ [OnError m] \<and>
         list_all is_OnStreamUpdate (fst (stream_try parse (fetch q))) \<and>
         snd (askQuestionStream parse fetch q) = Returned \<and>
         msg_content (last (messages (sendMessage parse fetch t st q))) =
           ''Sorry, I encountered an error during streaming. Please try again.'' \<and>
         msg_error (last (messages (sendMessage parse fetch t st q))) = Some m \<and>
         apiError (sendMessage parse fetch t st q) = Some m \<and>
         isLoading (sendMessage parse fetch t st q) = False"
proof -
  have run: "askQuestionStream parse fetch q =
      (fst (stream_try parse (fetch q)) @ [OnError m], Returned)"
    using assms(2,3) by (cases "stream_try parse (fetch q)") (simp add: askQuestionStream_def)
  then have "fst (askQuestionStream parse fetch q) = fst (stream_try parse (fetch q)) @ [OnError m]"
    by simp
  from sendMessage_error [OF assms(1) this] run stream_try_throws_updates [OF assms(2)]
  show ?thesis by simp
qed

theorem stream_failure_shows_error_only_witness:
  "\<not> isLoading sample_chat \<and>
   snd (stream_try sample_parse (failing_fetch ''When?'')) = Threw ''connection reset'' \<and>
   fst (stream_try sample_parse (failing_fetch ''When?'')) =
     [OnStreamUpdate [] [''src''], OnStreamUpdate ''Nige'' [''src'']] \<and>
   askQuestionStream sample_parse failing_fetch ''When?'' =
     ([OnStreamUpdate [] [''src''], OnStreamUpdate ''Nige'' [''src''],
       OnError ''connection reset''], Returned) \<and>
   msg_content (last (messages
     (sendMessage sample_parse failing_fetch sample_times sample_chat
        ''When?''))) = ''Sorry, I encountered an error during streaming. Please try again.'' \<and>
   apiError (sendMessage sample_parse failing_fetch sample_times
     sample_chat ''When?'') = Some ''connection reset'' \<and>
   \<not> isLoading (sendMessage sample_parse failing_fetch sample_times
     sample_chat ''When?'')"
proof -
  have h1: "\<not> isLoading sample_chat" by (simp add: sample_chat_def)
  have tried: "stream_try sample_parse (failing_fetch ''When?'') =
      ([OnStreamUpdate [] [''src''], OnStreamUpdate ''Nige'' [''src'']], Threw ''connection reset'')"
    by (simp add: stream_try_def sample_simps)
  then have h2: "snd (stream_try sample_parse (failing_fetch ''When?'')) =
      Threw ''connection reset''" by simp
  have h3: "''connection reset'' =
      (if ''connection reset'' = [] then ''Network error during streaming.'' else ''connection reset'')"
    by simp
  show ?thesis
    using stream_failure_shows_error_only [where st = sample_chat and parse = sample_parse
        and fetch = failing_fetch and q = "''When?''" and e = "''connection reset''"
        and m = "''connection reset''" and t = sample_times] h1 h2 h3 tried
    by (simp add: prod_eq_iff)
qed

text \<open>
  C4: the claim fails on a stream that a read boundary cuts inside a line, for the same
  reason as C1. For the answer \<open>Nigeria\<close> with the sources \<open>[src]\<close>, the non-streaming
  hook ends with that content and those sources; the streaming hook, on the bytes of
  the events of the same answer cut inside the first chunk event and inside the end
  event, ends with the content \<open>ria\<close> and no sources.
\<close>

theorem cut_stream_differs_from_nonstreaming:
  "concat cut_chunks = concat whole_chunks \<and>
   delivers sample_parse whole_chunks
     (StreamMetadata [''src''] 2 1 # map StreamChunk [''Nige'', ''ria'']
        @ [StreamEnd ''Nigeria'' ''t'' ''1s'']) \<and>
   askQuestion sample_post ''When?'' 5 =
     Inr \<lparr>question = ''When?'', answer = ''Nigeria'', sources = [''src''],
       relevant_chunks_found = 2, context_chunks_used = 1, timestamp = ''t'',
       response_time_ms = 1000\<rparr> \<and>
   msg_content (last (messages
     (sendMessage_nonstreaming sample_post sample_times sample_chat ''When?''))) =
     ''Nigeria'' \<and>
   msg_sources (last (messages
     (sendMessage_nonstreaming sample_post sample_times sample_chat ''When?''))) =
     Some [''src''] \<and>
   msg_content (last (messages
     (sendMessage sample_parse cut_fetch sample_times sample_chat ''When?''))) = ''ria'' \<and>
   msg_sources (last (messages
     (sendMessage sample_parse cut_fetch sample_times sample_chat ''When?''))) = Some []"
  by (simp add: delivers_def askQuestionStream_def stream_try_def sendMessage_def
      sendMessage_nonstreaming_def askQuestion_def Let_def onStreamUpdate_def sample_simps)

text \<open>
  C5: the non-streaming query response is one object with exactly the fields question,
  answer, sources (a list of strings), relevant_chunks_found and context_chunks_used
  (integers), timestamp and response_time_ms; it has the shape the interface
  \<open>QuestionResponse\<close> declares, and \<open>askQuestion\<close> returns it as the request resolved
  with it.
\<close>

theorem askQuestion_response:
  assumes "post q maxSources = PostResolves (ask_response q a srcs found used stamp ms)"
  shows "(case askQuestion post q maxSources of
            Inl message \<Rightarrow> False
          | Inr data \<Rightarrow>
              keys_of data =
                [''question'', ''answer'', ''sources'', ''relevant_chunks_found'',
                 ''context_chunks_used'', ''timestamp'', ''response_time_ms''] \<and>
              property data ''question'' = Some (JString q) \<and>
              property data ''answer'' = Some (JString a) \<and>
              property data ''sources'' = Some (JArray (map JString srcs)) \<and>
              is_string_array (property data ''sources'') \<and>
              property data ''relevant_chunks_found'' = Some (JNumber (real_of_int found)) \<and>
              is_integer (property data ''relevant_chunks_found'') \<and>
              property data ''context_chunks_used'' = Some (JNumber (real_of_int used)) \<and>
              is_integer (property data ''context_chunks_used'') \<and>
              property data ''timestamp'' = Some (JString stamp) \<and>
              property data ''response_time_ms'' = Some (JNumber ms) \<and>
              conforms_QuestionResponse data)"
  using assms
  by (simp add: askQuestion_def ask_response_def conforms_QuestionResponse_def list_all_iff)

theorem askQuestion_response_witness:
  "(\<lambda>q n. PostResolves (ask_response q ''In 1960.'' [''src''] 2 (int n) ''t'' 12.5))
     ''When?'' 5 =
     PostResolves (ask_response ''When?'' ''In 1960.'' [''src''] 2 5 ''t'' 12.5) \<and>
   askQuestion (\<lambda>q n. PostResolves (ask_response q ''In 1960.'' [''src''] 2 (int n) ''t'' 12.5))
     ''When?'' 5 =
     Inr (JObject [(''question'', JString ''When?''), (''answer'', JString ''In 1960.''),
       (''sources'', JArray [JString ''src'']), (''relevant_chunks_found'', JNumber 2),
       (''context_chunks_used'', JNumber 5), (''timestamp'', JString ''t''),
       (''response_time_ms'', JNumber 12.5)]) \<and>
   is_integer (property (ask_response ''When?'' ''In 1960.'' [''src''] 2 5 ''t'' 12.5)
     ''relevant_chunks_found'') \<and>
   conforms_QuestionResponse (ask_response ''When?'' ''In 1960.'' [''src''] 2 5 ''t'' 12.5)"
proof -
  have h: "(\<lambda>q n. PostResolves (ask_response q ''In 1960.'' [''src''] 2 (int n) ''t'' 12.5))
     ''When?'' 5 =
     PostResolves (ask_response ''When?'' ''In 1960.'' [''src''] 2 5 ''t'' 12.5)"
    by simp
  show ?thesis
    using askQuestion_response [where
        post = "\<lambda>q n. PostResolves (ask_response q ''In 1960.'' [''src''] 2 (int n) ''t'' 12.5)"
        and q = "''When?''" and maxSources = 5 and a = "''In 1960.''" and srcs = "[''src'']"
        and found = 2 and used = 5 and stamp = "''t''" and ms = "12.5", OF h]
    by (simp add: askQuestion_def ask_response_def conforms_QuestionResponse_def)
qed

text \<open>
  C6: at every point of the consumption of a stream, the content handed to
  \<open>onStreamUpdate\<close> is the concatenation, in order, of the contents of the chunk events
  handled so far: the \<open>i\<close>-th call, when it is an update, carries the chunk contents
  among the first \<open>i + 1\<close> events delivered.
\<close>

theorem update_content_is_concatenation:
  assumes "fetch q = FetchResolves r" and "ok r" and "body r = Some reads"
    and "i < length (fst (askQuestionStream parse fetch q))"
    and "fst (askQuestionStream parse fetch q) ! i = OnStreamUpdate content srcs"
  shows "content =
     concat (map chunk_content (filter is_StreamChunk (take (Suc i) (delivered_parts parse reads))))"
proof -
  let ?calls = "calls_of ([], []) (delivered_parts parse reads)"
  have tried: "fst (stream_try parse (fetch q)) = ?calls"
    using assms(1-3) by (simp add: stream_try_def read_loop_calls)
  have "\<exists>tl. fst (askQuestionStream parse fetch q) = ?calls @ tl \<and> list_all is_OnError tl"
    using tried
    by (cases "stream_try parse (fetch q)"; cases "snd (stream_try parse (fetch q))")
      (auto simp: askQuestionStream_def)
  then obtain tl where tl: "fst (askQuestionStream parse fetch q) = ?calls @ tl"
      "list_all is_OnError tl" by blast
  have "i < length ?calls"
  proof (rule ccontr)
    assume "\<not> i < length ?calls"
    with assms(4,5) tl have "tl ! (i - length ?calls) = OnStreamUpdate content srcs"
      "i - length ?calls < length tl"
      by (auto simp: nth_append)
    with tl(2) show False by (auto simp: list_all_length)
  qed
  with assms(5) tl have "?calls ! i = OnStreamUpdate content srcs"
    by (simp add: nth_append)
  with \<open>i < length ?calls\<close> show ?thesis
    using calls_of_nth [of i "[]" "[]" "delivered_parts parse reads" content srcs] by simp
qed

theorem update_content_is_concatenation_witness:
  "ok sample_response \<and>
   body sample_response = Some (map ReadValue sample_chunks @ [ReadValue chunk2_line, ReadThrows ''late'']) \<and>
   2 < length (fst (askQuestionStream sample_parse sample_fetch ''When?'')) \<and>
   fst (askQuestionStream sample_parse sample_fetch ''When?'') ! 2 =
     OnStreamUpdate ''Nigeria'' [''src''] \<and>
   ''Nigeria'' = concat (map chunk_content (filter is_StreamChunk (take (Suc 2)
     (delivered_parts sample_parse
        (map ReadValue sample_chunks @ [ReadValue chunk2_line, ReadThrows ''late''])))))"
proof -
  have h1: "sample_fetch ''When?'' = FetchResolves sample_response"
    by (simp add: sample_fetch_def)
  have h2: "ok sample_response" by (simp add: sample_response_def)
  have h3: "body sample_response =
      Some (map ReadValue sample_chunks @ [ReadValue chunk2_line, ReadThrows ''late''])"
    by (simp add: sample_response_def)
  have run: "fst (askQuestionStream sample_parse sample_fetch ''When?'') =
     [OnStreamUpdate [] [''src''], OnStreamUpdate ''Nige'' [''src''],
       OnStreamUpdate ''Nigeria'' [''src''], OnStreamEnd ''Nigeria'']"
    by (simp add: askQuestionStream_def stream_try_def sample_simps)
  have h4: "2 < length (fst (askQuestionStream sample_parse
      sample_fetch ''When?''))"
    unfolding run by simp
  have h5: "fst (askQuestionStream sample_parse sample_fetch ''When?'') ! 2 =
     OnStreamUpdate ''Nigeria'' [''src'']"
    unfolding run by simp
  show ?thesis
    using update_content_is_concatenation [where fetch = sample_fetch and q = "''When?''"
        and r = sample_response and parse = sample_parse and i = 2
        and reads = "map ReadValue sample_chunks @ [ReadValue chunk2_line, ReadThrows ''late'']"
        and content = "''Nigeria''" and srcs = "[''src'']"]
      h1 h2 h3 h4 h5
    by simp
qed

text \<open>
  C7: a streaming request is not bounded by a time budget: when the server stalls after
  the first chunk event, \<open>askQuestionStream\<close> never settles and calls neither
  \<open>onStreamEnd\<close> nor \<open>onError\<close>; the hook stays loading, with no error.
\<close>

theorem stream_stalled_never_settles:
  "askQuestionStream sample_parse stalled_fetch ''When?'' =
     ([OnStreamUpdate [] [''src''], OnStreamUpdate ''Nige'' [''src'']], Pending) \<and>
   isLoading (sendMessage sample_parse stalled_fetch sample_times
     sample_chat ''When?'') \<and>
   apiError (sendMessage sample_parse stalled_fetch sample_times
     sample_chat ''When?'') = None"
  by (simp add: askQuestionStream_def stream_try_def sendMessage_def Let_def
      onStreamUpdate_def sample_simps)

text \<open>
  C8: when the reader reports done and no end event was parsed, \<open>askQuestionStream\<close>
  returns having called neither \<open>onStreamEnd\<close> nor \<open>onError\<close>; the hook stays loading,
  with no error.
\<close>

theorem stream_done_without_end:
  "askQuestionStream sample_parse truncated_fetch ''When?'' =
     ([OnStreamUpdate [] [''src''], OnStreamUpdate ''Nige'' [''src'']], Returned) \<and>
   isLoading (sendMessage sample_parse truncated_fetch sample_times
     sample_chat ''When?'') \<and>
   apiError (sendMessage sample_parse truncated_fetch sample_times
     sample_chat ''When?'') = None"
  by (simp add: askQuestionStream_def stream_try_def sendMessage_def Let_def
      onStreamUpdate_def sample_simps)

text \<open>
  C9: a call of \<open>sendMessage\<close> made while \<open>isLoading\<close> is true returns at once and
  leaves the state of the hook as it was, in the streaming and in the non-streaming
  version: no message is appended, the result does not depend on the network, and
  \<open>isLoading\<close> and \<open>apiError\<close> keep their values.
\<close>

theorem sendMessage_while_loading:
  "isLoading st \<Longrightarrow>
     sendMessage parse fetch t st q = st \<and> sendMessage_nonstreaming post t st q = st"
  by (simp add: sendMessage_def sendMessage_nonstreaming_def)

theorem sendMessage_while_loading_witness:
  "isLoading \<lparr>messages = [], isLoading = True, apiError = Some ''old'', isInitialized = True\<rparr> \<and>
   sendMessage sample_parse
     sample_fetch
     \<lparr>now_user = 1, now_assistant = 1, date_user = 1, date_loading = 1, date_final = 2\<rparr>
     \<lparr>messages = [], isLoading = True, apiError = Some ''old'', isInitialized = True\<rparr> ''When?'' =
     \<lparr>messages = [], isLoading = True, apiError = Some ''old'', isInitialized = True\<rparr> \<and>
   sendMessage_nonstreaming (\<lambda>q n. PostRejects NoResponse)
     \<lparr>now_user = 1, now_assistant = 1, date_user = 1, date_loading = 1, date_final = 2\<rparr>
     \<lparr>messages = [], isLoading = True, apiError = Some ''old'', isInitialized = True\<rparr> ''When?'' =
     \<lparr>messages = [], isLoading = True, apiError = Some ''old'', isInitialized = True\<rparr>"
  using sendMessage_while_loading [where
      st = "\<lparr>messages = [], isLoading = True, apiError = Some ''old'', isInitialized = True\<rparr>"
      and parse = sample_parse
      and fetch = sample_fetch
      and t = "\<lparr>now_user = 1, now_assistant = 1, date_user = 1, date_loading = 1, date_final = 2\<rparr>"
      and q = "''When?''" and post = "\<lambda>q n. PostRejects NoResponse"]
  by simp

text \<open>
  C10: a line of the stream that is not valid JSON (after the optional prefix
  \<open>data: \<close> is removed) is skipped: it leads to no call, so \<open>onError\<close> is not invoked
  for it, and leaves the accumulated content and the sources as they were; the lines
  before and after it are processed as if it were absent, in the loop over the lines
  and in the whole function.
\<close>

theorem invalid_json_line_skipped:
  assumes "parse (jsonLine_of line) = None" and "CHR 0x0A \<notin> set line"
  shows "process_line parse vars line = ([], Some vars) \<and>
         for_lines parse vars (before @ line # after) = for_lines parse vars (before @ after) \<and>
         askQuestionStream parse
           (\<lambda>q. FetchResolves (response\<lparr>body :=
              Some (reads @ ReadValue (a @ CHR 0x0A # line @ CHR 0x0A # b) # reads')\<rparr>)) q =
         askQuestionStream parse
           (\<lambda>q. FetchResolves (response\<lparr>body :=
              Some (reads @ ReadValue (a @ CHR 0x0A # b) # reads')\<rparr>)) q"
proof -
  have "read_loop parse ([], []) (reads @ ReadValue (a @ CHR 0x0A # line @ CHR 0x0A # b) # reads') =
        read_loop parse ([], []) (reads @ ReadValue (a @ CHR 0x0A # b) # reads')"
    using assms by (rule read_loop_invalid)
  then have "stream_try parse (FetchResolves (response\<lparr>body :=
              Some (reads @ ReadValue (a @ CHR 0x0A # line @ CHR 0x0A # b) # reads')\<rparr>)) =
        stream_try parse (FetchResolves (response\<lparr>body :=
              Some (reads @ ReadValue (a @ CHR 0x0A # b) # reads')\<rparr>))"
    by (simp add: stream_try_def split: json_result.splits)
  then show ?thesis
    using assms(1)
    by (simp add: askQuestionStream_def process_line_invalid [of parse line]
        for_lines_invalid [of parse line])
qed

theorem invalid_json_line_skipped_witness:
  "sample_parse (jsonLine_of ''data: {oops'') = None \<and> CHR 0x0A \<notin> set ''data: {oops'' \<and>
   process_line sample_parse (''Nige'', [''src'']) ''data: {oops'' =
     ([], Some (''Nige'', [''src''])) \<and>
   for_lines sample_parse (''Nige'', [''src'']) ([] @ ''data: {oops'' # [chunk2_line]) =
     ([OnStreamUpdate ''Nigeria'' [''src'']], Some (''Nigeria'', [''src''])) \<and>
   askQuestionStream sample_parse
     (\<lambda>q. FetchResolves (sample_response\<lparr>body :=
        Some ([ReadValue metadata_line] @
          ReadValue (chunk1_line @ CHR 0x0A # ''data: {oops'' @ CHR 0x0A # chunk2_line)
            # [ReadValue end_line])\<rparr>)) ''When?'' =
     ([OnStreamUpdate [] [''src''], OnStreamUpdate ''Nige'' [''src''],
       OnStreamUpdate ''Nigeria'' [''src''], OnStreamEnd ''Nigeria''], Returned)"
proof -
  have h1: "sample_parse (jsonLine_of ''data: {oops'') = None"
    by (simp add: sample_simps)
  have h2: "CHR 0x0A \<notin> set ''data: {oops''" by simp
  have run: "askQuestionStream sample_parse
     (\<lambda>q. FetchResolves (sample_response\<lparr>body :=
        Some ([ReadValue metadata_line] @ ReadValue (chunk1_line @ CHR 0x0A # chunk2_line)
            # [ReadValue end_line])\<rparr>)) ''When?'' =
     ([OnStreamUpdate [] [''src''], OnStreamUpdate ''Nige'' [''src''],
       OnStreamUpdate ''Nigeria'' [''src''], OnStreamEnd ''Nigeria''], Returned)"
    by (simp add: askQuestionStream_def stream_try_def sample_simps)
  have rest: "for_lines sample_parse (''Nige'', [''src'']) ([] @ [chunk2_line]) =
     ([OnStreamUpdate ''Nigeria'' [''src'']], Some (''Nigeria'', [''src'']))"
    by (simp add: sample_simps)
  show ?thesis
    using invalid_json_line_skipped [where parse = sample_parse and line = "''data: {oops''"
        and vars = "(''Nige'', [''src''])" and before = "[]" and after = "[chunk2_line]"
        and response = sample_response
        and reads = "[ReadValue metadata_line]" and a = chunk1_line and b = chunk2_line
        and reads' = "[ReadValue end_line]" and q = "''When?''"] h1 h2 run rest
    by simp
qed

end
